theory Spec2Isabelle
  imports Complex_Main "HOL-Library.Log_Nat"
begin

section \<open>Numerical values and errors\<close>

text \<open>
  The notebook computes with NumPy double-precision arrays. The model keeps the special
  values of that arithmetic (the two infinities and not-a-number) and takes every finite
  value as an exact real: rounding and overflow of finite results are not modelled,
  except in the double-precision form of the last line of the function, further down.
  The Python scalars \<open>initialBoundaryPoint\<close>, \<open>finalBoundaryPoint\<close>, \<open>mass\<close>
  and \<open>hbar\<close> are finite reals; \<open>numPosSteps\<close> and \<open>numEigVals\<close> are Python
  integers.
\<close>

datatype npfloat = Fin real | PInf | NInf | NaN

text \<open>The exceptions the function can leave through; \<open>Raised\<close> is an exception of the
  caller's potential function, which nothing in the function catches.\<close>

datatype error = ValueError | IndexError | ZeroDivisionError | Raised string

fun np_add :: "npfloat \<Rightarrow> npfloat \<Rightarrow> npfloat" where
  "np_add NaN _ = NaN"
| "np_add _ NaN = NaN"
| "np_add (Fin x) (Fin y) = Fin (x + y)"
| "np_add (Fin x) PInf = PInf"
| "np_add (Fin x) NInf = NInf"
| "np_add PInf (Fin y) = PInf"
| "np_add NInf (Fin y) = NInf"
| "np_add PInf PInf = PInf"
| "np_add NInf NInf = NInf"
| "np_add PInf NInf = NaN"
| "np_add NInf PInf = NaN"

text \<open>The product of a finite value with an infinity: zero times infinity is not a number.\<close>

definition scale_inf :: "real \<Rightarrow> bool \<Rightarrow> npfloat" where
  "scale_inf x positive =
     (if x = 0 then NaN else if (0 < x) = positive then PInf else NInf)"

fun np_mul :: "npfloat \<Rightarrow> npfloat \<Rightarrow> npfloat" where
  "np_mul NaN _ = NaN"
| "np_mul _ NaN = NaN"
| "np_mul (Fin x) (Fin y) = Fin (x * y)"
| "np_mul (Fin x) PInf = scale_inf x True"
| "np_mul (Fin x) NInf = scale_inf x False"
| "np_mul PInf (Fin y) = scale_inf y True"
| "np_mul NInf (Fin y) = scale_inf y False"
| "np_mul PInf PInf = PInf"
| "np_mul NInf NInf = PInf"
| "np_mul PInf NInf = NInf"
| "np_mul NInf PInf = NInf"

text \<open>\<open>np.power(dx, -2.0)\<close>: the inverse square, infinite at zero (NumPy warns there and
  does not raise).\<close>

definition np_power_neg2 :: "real \<Rightarrow> npfloat" where
  "np_power_neg2 dx = (if dx = 0 then PInf else Fin (inverse (dx ^ 2)))"

section \<open>The array operations the function calls\<close>

text \<open>\<open>np.linspace(start, stop, num)\<close>: \<open>num\<close> evenly spaced samples from \<open>start\<close>
  to \<open>stop\<close>, both included. As NumPy computes it: a negative \<open>num\<close> is a ValueError;
  the samples are \<open>arange(0, num) * step + start\<close> with \<open>step = delta / (num - 1)\<close>
  (and \<open>arange(0, num) * delta + start\<close> when there is at most one sample); with more than
  one sample the last is set to \<open>stop\<close> itself.\<close>

definition linspace :: "real \<Rightarrow> real \<Rightarrow> int \<Rightarrow> error + real list" where
  "linspace start stop num =
     (if num < 0 then Inl ValueError
      else let d = num - 1;
               delta = stop - start;
               y = map real [0..<nat num];
               y = (if 0 < d then map (\<lambda>t. t * (delta / real_of_int d)) y
                    else map (\<lambda>t. t * delta) y);
               y = map (\<lambda>t. t + start) y
           in Inr (if 1 < num then y[nat num - 1 := stop] else y))"

text \<open>\<open>np.diff(xs)\<close> is \<open>xs[1:] - xs[:-1]\<close>.\<close>

definition np_diff :: "real list \<Rightarrow> real list" where
  "np_diff xs = map2 (\<lambda>u v. u - v) (tl xs) (butlast xs)"

text \<open>Reading element \<open>[0]\<close> of an array raises IndexError on an empty one.\<close>

definition index0 :: "'a list \<Rightarrow> error + 'a" where
  "index0 xs = (case xs of [] \<Rightarrow> Inl IndexError | x # _ \<Rightarrow> Inr x)"

text \<open>The slice \<open>[1:-1]\<close> drops the first and the last element (and is empty on arrays
  of fewer than three elements).\<close>

definition slice_inner :: "'a list \<Rightarrow> 'a list" where
  "slice_inner xs = butlast (tl xs)"

text \<open>\<open>np.ones(n)\<close> raises ValueError on a negative dimension.\<close>

definition np_ones :: "int \<Rightarrow> error + npfloat list" where
  "np_ones n = (if n < 0 then Inl ValueError else Inr (replicate (nat n) (Fin 1)))"

text \<open>Python's \<open>/\<close> on two Python numbers.\<close>

definition py_truediv :: "real \<Rightarrow> real \<Rightarrow> error + real" where
  "py_truediv x y = (if y = 0 then Inl ZeroDivisionError else Inr (x / y))"

section \<open>The function \<open>discretized_schrodinger\<close>\<close>

text \<open>
  The potential function receives the whole mesh and returns one value per point (or
  raises). A potential given pointwise is applied to the mesh by \<open>vectorized\<close>, as NumPy's
  elementwise operations do.
\<close>

type_synonym potential = "real list \<Rightarrow> error + npfloat list"

definition vectorized :: "(real \<Rightarrow> npfloat) \<Rightarrow> potential" where
  "vectorized V xs = Inr (map V xs)"

text \<open>A pointwise potential whose values are all finite.\<close>

definition finite_valued :: "(real \<Rightarrow> real) \<Rightarrow> real \<Rightarrow> npfloat" where
  "finite_valued V x = Fin (V x)"

text \<open>
  The first half of the function body, up to the two diagonals:
  \<^verbatim>\<open>
    xs = np.linspace(initialBoundaryPoint,finalBoundaryPoint,numPosSteps+2)
    dx = np.diff(xs)[0]
    Vx = potentialFunction(xs)
    main_diag = (np.power(dx,-2.0) + mass * Vx)[1:-1]
    off_diag  = np.power(dx,-2.0) * -0.5 * np.ones(len(main_diag)-1)
  \<close>
\<close>

definition discretize ::
  "potential \<Rightarrow> real \<Rightarrow> real \<Rightarrow> int \<Rightarrow> real \<Rightarrow> error + (npfloat list \<times> npfloat list)" where
  "discretize potentialFunction initialBoundaryPoint finalBoundaryPoint numPosSteps mass =
     (case linspace initialBoundaryPoint finalBoundaryPoint (numPosSteps + 2) of
        Inl err \<Rightarrow> Inl err
      | Inr xs \<Rightarrow>
     (case index0 (np_diff xs) of
        Inl err \<Rightarrow> Inl err
      | Inr dx \<Rightarrow>
     (case potentialFunction xs of
        Inl err \<Rightarrow> Inl err
      | Inr Vx \<Rightarrow>
     (let main_diag =
            slice_inner (map (\<lambda>v. np_add (np_power_neg2 dx) (np_mul (Fin mass) v)) Vx)
      in case np_ones (int (length main_diag) - 1) of
           Inl err \<Rightarrow> Inl err
         | Inr ones \<Rightarrow>
             Inr (main_diag,
                  map (np_mul (np_mul (np_power_neg2 dx) (Fin (- 0.5)))) ones)))))"

text \<open>
  \<open>scipy.linalg.eigh_tridiagonal\<close> is a library routine outside the repository. The
  call \<open>eigh_tridiagonal(d, e, eigvals_only=False, select='i', select_range=(lo, hi))\<close>
  is a parameter of the model: it takes the two diagonals and the index range, and returns
  the eigenvalues and the matrix of eigenvectors (as the list of its rows, one column per
  eigenvector), or raises.
\<close>

type_synonym eigensolver =
  "npfloat list \<Rightarrow> npfloat list \<Rightarrow> int \<times> int \<Rightarrow> error + (npfloat list \<times> npfloat list list)"

text \<open>
  The whole function: the diagonals, the library call and
  \<^verbatim>\<open>return (hbar/mass)*eigvals, eigstates.T\<close>.
\<close>

definition discretized_schrodinger ::
  "eigensolver \<Rightarrow> potential \<Rightarrow> real \<Rightarrow> real \<Rightarrow> int \<Rightarrow> int \<Rightarrow> real \<Rightarrow> real
     \<Rightarrow> error + (npfloat list \<times> npfloat list list)" where
  "discretized_schrodinger eigh_tridiagonal potentialFunction initialBoundaryPoint
       finalBoundaryPoint numPosSteps numEigVals mass hbar =
     (case discretize potentialFunction initialBoundaryPoint finalBoundaryPoint
             numPosSteps mass of
        Inl err \<Rightarrow> Inl err
      | Inr (main_diag, off_diag) \<Rightarrow>
     (case eigh_tridiagonal main_diag off_diag (0, numEigVals - 1) of
        Inl err \<Rightarrow> Inl err
      | Inr (eigvals, eigstates) \<Rightarrow>
     (case py_truediv hbar mass of
        Inl err \<Rightarrow> Inl err
      | Inr c \<Rightarrow> Inr (map (np_mul (Fin c)) eigvals, transpose eigstates))))"

section \<open>The last line in double precision\<close>

text \<open>
  Where two different orders of evaluation are compared, the rounding of the last line
  \<^verbatim>\<open>return (hbar/mass)*eigvals, eigstates.T\<close> matters. \<open>float64\<close> is the IEEE 754
  binary64 value nearest to a real number, ties to the even significand: 53 significant
  bits in the binade of the number, the fixed spacing \<open>2\<^sup>-\<^sup>1\<^sup>0\<^sup>7\<^sup>4\<close> below
  \<open>2\<^sup>-\<^sup>1\<^sup>0\<^sup>2\<^sup>2\<close> (gradual underflow), and an infinity when the rounded value reaches
  \<open>2\<^sup>1\<^sup>0\<^sup>2\<^sup>4\<close>. The sign of a zero is not kept.
\<close>

definition round_half_even :: "real \<Rightarrow> int" where
  "round_half_even y =
     (let f = \<lfloor>y\<rfloor>; r = y - of_int f
      in if r < 1 / 2 then f else if 1 / 2 < r then f + 1
         else if even f then f else f + 1)"

text \<open>The binade of a positive number \<open>m\<close>: the integer \<open>e\<close> with \<open>2\<^sup>e \<le> m < 2\<^sup>e\<^sup>+\<^sup>1\<close>.\<close>

definition binade :: "real \<Rightarrow> int" where
  "binade m = (if 1 \<le> m then bitlen \<lfloor>m\<rfloor> - 1 else - bitlen (\<lceil>1 / m\<rceil> - 1))"

definition float64 :: "real \<Rightarrow> npfloat" where
  "float64 x =
     (if x = 0 then Fin 0
      else let m = \<bar>x\<bar>;
               e = max (binade m) (- 1022);
               q = 2 powi (e - 52);
               r = of_int (round_half_even (m / q)) * q
           in if 2 powi 1024 \<le> r then (if 0 < x then PInf else NInf)
              else Fin (sgn x * r))"

text \<open>Python's \<open>/\<close> on two floats and NumPy's elementwise product, correctly rounded.\<close>

definition py_truediv_float64 :: "real \<Rightarrow> real \<Rightarrow> error + npfloat" where
  "py_truediv_float64 x y = (if y = 0 then Inl ZeroDivisionError else Inr (float64 (x / y)))"

definition np_mul_float64 :: "npfloat \<Rightarrow> npfloat \<Rightarrow> npfloat" where
  "np_mul_float64 u v =
     (case (u, v) of (Fin x, Fin y) \<Rightarrow> float64 (x * y) | _ \<Rightarrow> np_mul u v)"

text \<open>The function with its last line in double precision. \<open>hbar\<close> does not occur before
  the last line, so the part before it is the one above.\<close>

definition discretized_schrodinger_float64 ::
  "eigensolver \<Rightarrow> potential \<Rightarrow> real \<Rightarrow> real \<Rightarrow> int \<Rightarrow> int \<Rightarrow> real \<Rightarrow> real
     \<Rightarrow> error + (npfloat list \<times> npfloat list list)" where
  "discretized_schrodinger_float64 eigh_tridiagonal potentialFunction initialBoundaryPoint
       finalBoundaryPoint numPosSteps numEigVals mass hbar =
     (case discretize potentialFunction initialBoundaryPoint finalBoundaryPoint
             numPosSteps mass of
        Inl err \<Rightarrow> Inl err
      | Inr (main_diag, off_diag) \<Rightarrow>
     (case eigh_tridiagonal main_diag off_diag (0, numEigVals - 1) of
        Inl err \<Rightarrow> Inl err
      | Inr (eigvals, eigstates) \<Rightarrow>
     (case py_truediv_float64 hbar mass of
        Inl err \<Rightarrow> Inl err
      | Inr c \<Rightarrow> Inr (map (np_mul_float64 c) eigvals, transpose eigstates))))"

section \<open>The mesh in closed form\<close>

text \<open>The mesh in closed form, for the statements below: the spacing
  \<open>dx = (b - a) / (N + 1)\<close> and the points \<open>x\<^sub>i = a + i * dx\<close> for \<open>i = 0, \<dots>, N + 1\<close>.\<close>

definition mesh_dx :: "real \<Rightarrow> real \<Rightarrow> int \<Rightarrow> real" where
  "mesh_dx a b N = (b - a) / real_of_int (N + 1)"

definition mesh_point :: "real \<Rightarrow> real \<Rightarrow> int \<Rightarrow> nat \<Rightarrow> real" where
  "mesh_point a b N i = a + real i * mesh_dx a b N"

definition mesh :: "real \<Rightarrow> real \<Rightarrow> int \<Rightarrow> real list" where
  "mesh a b N = map (mesh_point a b N) [0..<nat (N + 2)]"

section \<open>Example inputs\<close>

text \<open>The example of the notebook:
  \<^verbatim>\<open>def harmonic_oscillator(x, omega, mass): return (mass/2)*np.power(omega*x,2)\<close>
  with \<open>omega = 3.5\<close> and \<open>mass = 4\<close> in \<open>config_opts\<close>.\<close>

definition harmonic_oscillator :: "real \<Rightarrow> real \<Rightarrow> real \<Rightarrow> real" where
  "harmonic_oscillator x omega mass = (mass / 2) * (omega * x) ^ 2"

definition config_potential :: "real \<Rightarrow> real" where
  "config_potential x = harmonic_oscillator x 3.5 4"

text \<open>Concrete inputs for the evaluations below: a potential that is infinite outside
  the open interval, a potential that raises, and, in the place of the library routine,
  the exact eigendecomposition of a one-by-one matrix and the exact lowest eigenpair of a
  two-by-two matrix with equal diagonal entries and a negative off-diagonal entry.\<close>

definition hard_wall :: "(real \<Rightarrow> npfloat) \<Rightarrow> real \<Rightarrow> real \<Rightarrow> real \<Rightarrow> npfloat" where
  "hard_wall V a b x = (if x \<le> a \<or> b \<le> x then PInf else V x)"

definition eigh_1x1 :: eigensolver where
  "eigh_1x1 d e select_range =
     (case d of
        [x] \<Rightarrow> if e = [] \<and> select_range = (0, 0) then Inr ([x], [[Fin 1]])
               else Inl ValueError
      | _ \<Rightarrow> Inl ValueError)"

definition raising_potential :: potential where
  "raising_potential xs = Inl (Raised ''potential'')"

definition eigh_2x2_lowest :: eigensolver where
  "eigh_2x2_lowest d e select_range =
     (case (d, e) of
        ([Fin p, Fin q], [Fin r]) \<Rightarrow>
          if p = q \<and> r < 0 \<and> select_range = (0, 0)
          then Inr ([Fin (p + r)], [[Fin (1 / sqrt 2)], [Fin (1 / sqrt 2)]])
          else Inl ValueError
      | _ \<Rightarrow> Inl ValueError)"

section \<open>The mesh\<close>

text \<open>For \<open>N \<ge> 0\<close> the call of \<open>linspace\<close> returns the mesh in closed form: the last
  sample, set to \<open>b\<close>, is \<open>a + (N + 1) * dx\<close> already.\<close>

lemma linspace_mesh:
  assumes "0 \<le> N"
  shows "linspace a b (N + 2) = Inr (mesh a b N)"
proof -
  let ?n = "nat N"
  let ?y = "map (mesh_point a b N) [0..<?n + 2]"
  have n2: "nat (N + 2) = ?n + 2" using assms by simp
  have last: "mesh_point a b N (?n + 1) = b"
  proof -
    define c where "c = real_of_int (N + 1)"
    have "real (?n + 1) = c" using assms by (simp add: c_def)
    moreover have "c \<noteq> 0" using assms by (simp add: c_def)
    ultimately show ?thesis
      unfolding mesh_point_def mesh_dx_def c_def [symmetric] by simp
  qed
  have upd: "?y[?n + 1 := b] = ?y"
  proof (rule nth_equalityI)
    show "length (?y[?n + 1 := b]) = length ?y" by simp
  next
    fix i assume "i < length (?y[?n + 1 := b])"
    then have i: "i < ?n + 2" by simp
    show "?y[?n + 1 := b] ! i = ?y ! i"
    proof (cases "i = ?n + 1")
      case True
      have "?y ! (?n + 1) = mesh_point a b N (?n + 1)"
        by (simp del: upt_Suc)
      with True last show ?thesis by (simp del: upt_Suc)
    next
      case False
      then show ?thesis by simp
    qed
  qed
  have samples: "map (\<lambda>t. t + a)
                  (map (\<lambda>t. t * ((b - a) / real_of_int (N + 2 - 1))) (map real [0..<?n + 2]))
                 = ?y"
    by (simp add: mesh_point_def mesh_dx_def add.commute del: upt_Suc)
  have "\<not> N + 2 < 0" "1 < N + 2" "0 < N + 2 - 1" "nat (N + 2) - 1 = ?n + 1"
    using assms by simp_all
  then show ?thesis
    unfolding linspace_def Let_def mesh_def n2 by (simp only: if_True if_False samples upd)
qed

lemma length_mesh: "0 \<le> N \<Longrightarrow> length (mesh a b N) = nat N + 2"
  by (simp add: mesh_def nat_add_distrib)

lemma nth_mesh: "0 \<le> N \<Longrightarrow> i < nat N + 2 \<Longrightarrow> mesh a b N ! i = mesh_point a b N i"
  by (simp add: mesh_def nat_add_distrib del: upt_Suc)

lemma length_slice_inner: "length (slice_inner xs) = length xs - 2"
  by (simp add: slice_inner_def)

lemma nth_slice_inner: "i + 2 < length xs \<Longrightarrow> slice_inner xs ! i = xs ! (i + 1)"
  by (simp add: slice_inner_def nth_butlast nth_tl)

lemma slice_inner_map: "slice_inner (map f xs) = map f (slice_inner xs)"
  by (simp add: slice_inner_def map_butlast map_tl)

lemma slice_inner_mesh:
  assumes "0 \<le> N"
  shows "slice_inner (mesh a b N) = map (\<lambda>i. mesh_point a b N (i + 1)) [0..<nat N]"
proof (rule nth_equalityI)
  show "length (slice_inner (mesh a b N)) = length (map (\<lambda>i. mesh_point a b N (i + 1)) [0..<nat N])"
    using assms by (simp add: length_slice_inner length_mesh)
next
  fix i assume "i < length (slice_inner (mesh a b N))"
  then have i: "i < nat N" using assms by (simp add: length_slice_inner length_mesh)
  then have "slice_inner (mesh a b N) ! i = mesh a b N ! (i + 1)"
    using assms by (intro nth_slice_inner) (simp add: length_mesh)
  also have "\<dots> = mesh_point a b N (i + 1)"
    using assms i by (intro nth_mesh) simp_all
  finally show "slice_inner (mesh a b N) ! i = map (\<lambda>i. mesh_point a b N (i + 1)) [0..<nat N] ! i"
    using i by simp
qed

lemma index0_diff:
  assumes "2 \<le> length xs"
  shows "index0 (np_diff xs) = Inr (xs ! 1 - xs ! 0)"
proof -
  obtain x0 x1 rest where xs: "xs = x0 # x1 # rest"
    using assms by (cases xs; cases "tl xs") auto
  show ?thesis unfolding xs by (simp add: np_diff_def index0_def)
qed

lemma mesh_step: "mesh_point a b N 1 - mesh_point a b N 0 = mesh_dx a b N"
  by (simp add: mesh_point_def)

lemma index0_diff_mesh:
  assumes "0 \<le> N"
  shows "index0 (np_diff (mesh a b N)) = Inr (mesh_dx a b N)"
proof -
  have "index0 (np_diff (mesh a b N)) = Inr (mesh a b N ! 1 - mesh a b N ! 0)"
    using assms by (intro index0_diff) (simp add: length_mesh)
  moreover have "mesh a b N ! 1 = mesh_point a b N 1" "mesh a b N ! 0 = mesh_point a b N 0"
    using assms by (simp_all add: nth_mesh)
  ultimately show ?thesis using mesh_step [of a b N] by simp
qed

lemma discretize_unfold:
  assumes "0 \<le> N"
  shows "discretize potentialFunction a b N mass =
     (case potentialFunction (mesh a b N) of
        Inl err \<Rightarrow> Inl err
      | Inr Vx \<Rightarrow>
         (case np_ones (int (length (slice_inner Vx)) - 1) of
            Inl err \<Rightarrow> Inl err
          | Inr ones \<Rightarrow>
              Inr (map (\<lambda>v. np_add (np_power_neg2 (mesh_dx a b N)) (np_mul (Fin mass) v))
                     (slice_inner Vx),
                   map (np_mul (np_mul (np_power_neg2 (mesh_dx a b N)) (Fin (- 0.5)))) ones)))"
  unfolding discretize_def
  by (simp add: linspace_mesh [OF assms] index0_diff_mesh [OF assms] slice_inner_map Let_def
        split: sum.splits)

lemma discretize_vectorized:
  assumes "1 \<le> N"
  shows "discretize (vectorized V) a b N mass =
     Inr (map (\<lambda>i. np_add (np_power_neg2 (mesh_dx a b N))
                       (np_mul (Fin mass) (V (mesh_point a b N (i + 1))))) [0..<nat N],
          replicate (nat N - 1)
            (np_mul (np_mul (np_power_neg2 (mesh_dx a b N)) (Fin (- 0.5))) (Fin 1)))"
proof -
  have N0: "0 \<le> N" using assms by simp
  have inner: "slice_inner (map V (mesh a b N)) = map (\<lambda>i. V (mesh_point a b N (i + 1))) [0..<nat N]"
    by (simp add: slice_inner_map slice_inner_mesh [OF N0] o_def)
  have ones: "np_ones (int (length (slice_inner (map V (mesh a b N)))) - 1)
                = Inr (replicate (nat N - 1) (Fin 1))"
    unfolding inner using assms by (simp add: np_ones_def nat_diff_distrib)
  show ?thesis
    unfolding discretize_unfold [OF N0] vectorized_def sum.case ones
    by (simp add: inner o_def)
qed

section \<open>The discretization step\<close>

lemma mesh_dx_nonzero: "a < b \<Longrightarrow> 0 \<le> N \<Longrightarrow> mesh_dx a b N \<noteq> 0"
  by (simp add: mesh_dx_def)

text \<open>
  Claim C1. For every pointwise potential \<open>V\<close>, bounds \<open>a < b\<close>, mesh size
  \<open>N \<ge> 1\<close> and mass, the mesh is the \<open>N + 2\<close> points \<open>x\<^sub>i = a + i * dx\<close> with
  \<open>dx = (b - a) / (N + 1)\<close>, from \<open>x\<^sub>0 = a\<close> to \<open>x\<^sub>N\<^sub>+\<^sub>1 = b\<close>; the main
  diagonal has the \<open>N\<close> entries \<open>dx\<^sup>-\<^sup>2 + mass * V x\<^sub>i\<^sub>+\<^sub>1\<close> and the off-diagonal the
  \<open>N - 1\<close> entries \<open>- 0.5 * dx\<^sup>-\<^sup>2\<close>.
\<close>

theorem discretization_formulas:
  assumes "a < b" and "1 \<le> N" and "dx = (b - a) / real_of_int (N + 1)"
  shows "linspace a b (N + 2) = Inr (map (\<lambda>i. a + real i * dx) [0..<nat N + 2])
       \<and> a + real (nat N + 1) * dx = b
       \<and> discretize (vectorized (finite_valued V)) a b N mass =
           Inr (map (\<lambda>i. Fin (inverse (dx ^ 2) + mass * V (a + real (i + 1) * dx))) [0..<nat N],
                replicate (nat N - 1) (Fin (- 0.5 * inverse (dx ^ 2))))"
proof -
  have N0: "0 \<le> N" using assms by simp
  have dx: "dx = mesh_dx a b N" by (simp add: assms mesh_dx_def)
  have nz: "dx \<noteq> 0" unfolding dx using assms N0 by (intro mesh_dx_nonzero)
  have n2: "nat (N + 2) = nat N + 2" using N0 by simp
  have "linspace a b (N + 2) = Inr (map (\<lambda>i. a + real i * dx) [0..<nat N + 2])"
    unfolding linspace_mesh [OF N0] mesh_def n2 dx
    by (simp add: mesh_point_def del: upt_Suc)
  moreover have "a + real (nat N + 1) * dx = b"
  proof -
    define c where "c = real_of_int (N + 1)"
    have "real (nat N + 1) = c" "c \<noteq> 0" using N0 by (simp_all add: c_def)
    then show ?thesis unfolding assms(3) c_def [symmetric] by simp
  qed
  moreover have "discretize (vectorized (finite_valued V)) a b N mass =
           Inr (map (\<lambda>i. Fin (inverse (dx ^ 2) + mass * V (a + real (i + 1) * dx))) [0..<nat N],
                replicate (nat N - 1) (Fin (- 0.5 * inverse (dx ^ 2))))"
    unfolding discretize_vectorized [OF assms(2)] dx [symmetric]
    using nz by (simp add: np_power_neg2_def finite_valued_def mesh_point_def dx)
  ultimately show ?thesis by simp
qed

theorem discretization_formulas_witness:
  "(- 15 :: real) < 15 \<and> (1 :: int) \<le> 2
   \<and> linspace (- 15) 15 4 = Inr [- 15, - 5, 5, 15]
   \<and> discretize (vectorized (finite_valued config_potential)) (- 15) 15 2 4 =
       Inr ([Fin 2450.01, Fin 2450.01], [Fin (- 0.005)])"
  using discretization_formulas [of "- 15" 15 2 10 config_potential 4]
  by (simp add: config_potential_def harmonic_oscillator_def upt_rec power2_eq_square)

lemma linspace_one: "linspace a b 1 = Inr [a]"
  by (simp add: linspace_def)

lemma linspace_zero: "linspace a b 0 = Inr []"
  by (simp add: linspace_def)

lemma discretize_fails:
  assumes "N < 1"
  shows "discretize (vectorized V) a b N mass =
           Inl (if N = 0 \<or> N < - 2 then ValueError else IndexError)"
proof -
  consider "N = 0" | "N = - 1" | "N = - 2" | "N < - 2" using assms by linarith
  then show ?thesis
  proof cases
    case 1
    have "0 \<le> N" using 1 by simp
    from discretize_unfold [OF this] show ?thesis
      using 1 by (simp add: vectorized_def length_slice_inner mesh_def np_ones_def)
  next
    case 2
    then show ?thesis
      by (simp add: discretize_def linspace_one np_diff_def index0_def)
  next
    case 3
    then show ?thesis
      by (simp add: discretize_def linspace_zero np_diff_def index0_def)
  next
    case 4
    then show ?thesis
      by (simp add: discretize_def linspace_def)
  qed
qed

text \<open>
  Claim C2 says that the discretization step rejects \<open>a \<ge> b\<close>, \<open>N < 1\<close> and
  \<open>mass \<le> 0\<close>. The function body checks none of its arguments: with the bounds
  exchanged, and with a negative mass, the two diagonals are computed as usual.
\<close>

theorem validation_counterexample:
  "discretize (vectorized (finite_valued config_potential)) 15 (- 15) 2 4 =
     Inr ([Fin 2450.01, Fin 2450.01], [Fin (- 0.005)])
   \<and> discretize (vectorized (finite_valued config_potential)) (- 15) 15 2 (- 4) =
     Inr ([Fin (- 2449.99), Fin (- 2449.99)], [Fin (- 0.005)])"
  by (simp add: discretize_vectorized np_power_neg2_def mesh_dx_def mesh_point_def
        finite_valued_def config_potential_def harmonic_oscillator_def upt_rec
        power2_eq_square)

text \<open>
  Claim C2, amended. The discretization step validates nothing. With a pointwise potential
  it succeeds whenever \<open>N \<ge> 1\<close>, for every \<open>a\<close> and \<open>b\<close> (also \<open>a \<ge> b\<close>), every
  mass (also \<open>mass \<le> 0\<close>) and every potential value (also a non-finite one), with the
  same formulas for the two diagonals. It fails exactly for \<open>N < 1\<close>, with the array
  library's own error: ValueError for \<open>N = 0\<close> (a negative dimension for \<open>np.ones\<close>)
  and \<open>N < - 2\<close> (a negative number of samples), IndexError for \<open>N = - 1\<close> and
  \<open>N = - 2\<close> (no first difference). An exception raised by the potential function
  on the mesh leaves the function unchanged.
\<close>

theorem discretize_unvalidated:
  assumes "dx = (b - a) / real_of_int (N + 1)"
  shows "(1 \<le> N \<longrightarrow>
      discretize (vectorized V) a b N mass =
        Inr (map (\<lambda>i. np_add (np_power_neg2 dx) (np_mul (Fin mass) (V (a + real (i + 1) * dx))))
               [0..<nat N],
             replicate (nat N - 1) (np_mul (np_mul (np_power_neg2 dx) (Fin (- 0.5))) (Fin 1))))
   \<and> (N < 1 \<longrightarrow>
        discretize (vectorized V) a b N mass =
          Inl (if N = 0 \<or> N < - 2 then ValueError else IndexError))
   \<and> (0 \<le> N \<and> linspace a b (N + 2) = Inr xs \<and> potentialFunction xs = Inl err \<longrightarrow>
        discretize potentialFunction a b N mass = Inl err)"
proof (intro conjI impI)
  assume "1 \<le> N"
  from discretize_vectorized [OF this, of V a b mass]
  show "discretize (vectorized V) a b N mass =
        Inr (map (\<lambda>i. np_add (np_power_neg2 dx) (np_mul (Fin mass) (V (a + real (i + 1) * dx))))
               [0..<nat N],
             replicate (nat N - 1) (np_mul (np_mul (np_power_neg2 dx) (Fin (- 0.5))) (Fin 1)))"
    by (simp add: assms mesh_dx_def mesh_point_def)
next
  assume "N < 1"
  then show "discretize (vectorized V) a b N mass =
          Inl (if N = 0 \<or> N < - 2 then ValueError else IndexError)"
    by (rule discretize_fails)
next
  assume h: "0 \<le> N \<and> linspace a b (N + 2) = Inr xs \<and> potentialFunction xs = Inl err"
  then have "xs = mesh a b N" using linspace_mesh [of N a b] by simp
  with h show "discretize potentialFunction a b N mass = Inl err"
    using discretize_unfold [of N potentialFunction a b mass] by simp
qed

theorem discretize_unvalidated_witness:
  "(1 :: int) \<le> 1
   \<and> discretize (vectorized (finite_valued config_potential)) 0 0 1 4 = Inr ([PInf], [])
   \<and> (0 :: int) < 1
   \<and> discretize (vectorized (finite_valued config_potential)) (- 15) 15 0 4 = Inl ValueError
   \<and> discretize (vectorized (finite_valued config_potential)) (- 15) 15 (- 1) 4 = Inl IndexError
   \<and> linspace (- 15) 15 (1 + 2) = Inr [- 15, 0, 15]
   \<and> raising_potential [- 15, 0, 15] = Inl (Raised ''potential'')
   \<and> discretize raising_potential (- 15) 15 1 4 = Inl (Raised ''potential'')"
proof -
  have l: "linspace (- 15) 15 (1 + 2) = Inr [- 15, 0, 15]"
    by (simp add: linspace_def upt_rec)
  have r: "raising_potential [- 15, 0, 15] = Inl (Raised ''potential'')"
    by (simp add: raising_potential_def)
  note t = discretize_unvalidated
  have "discretize raising_potential (- 15) 15 1 4 = Inl (Raised ''potential'')"
    using t [of 15 15 "- 15" 1 "finite_valued config_potential" 4 "[- 15, 0, 15]"
               raising_potential "Raised ''potential''"] l r
    by simp
  moreover have "discretize (vectorized (finite_valued config_potential)) (- 15) 15 0 4
                   = Inl ValueError"
    using t [of 30 15 "- 15" 0 "finite_valued config_potential" 4] by simp
  moreover have "discretize (vectorized (finite_valued config_potential)) (- 15) 15 (- 1) 4
                   = Inl IndexError"
    using t [of 0 15 "- 15" "- 1" "finite_valued config_potential" 4] by simp
  moreover have "discretize (vectorized (finite_valued config_potential)) 0 0 1 4
                   = Inr ([PInf], [])"
    using t [of 0 0 0 1 "finite_valued config_potential" 4]
    by (simp add: np_power_neg2_def finite_valued_def)
  ultimately show ?thesis using l r by simp
qed

section \<open>The whole function\<close>

lemma discretized_schrodinger_unfold:
  "discretized_schrodinger eigh potentialFunction a b N k mass hbar =
     (case discretize potentialFunction a b N mass of
        Inl err \<Rightarrow> Inl err
      | Inr (main_diag, off_diag) \<Rightarrow>
          (case eigh main_diag off_diag (0, k - 1) of
             Inl err \<Rightarrow> Inl err
           | Inr (eigvals, eigstates) \<Rightarrow>
               if mass = 0 then Inl ZeroDivisionError
               else Inr (map (np_mul (Fin (hbar / mass))) eigvals, transpose eigstates)))"
  by (simp add: discretized_schrodinger_def py_truediv_def split: sum.splits prod.splits)

text \<open>
  Claim C7. Two pointwise potentials that agree at the interior mesh points
  \<open>x\<^sub>1, \<dots>, x\<^sub>N\<close> give the same result (the same energies and states, or the same
  error) on the same remaining arguments, whatever their values at the two boundary points.
\<close>

theorem boundary_values_unused:
  assumes "dx = (b - a) / real_of_int (N + 1)"
    and "\<forall>i. 1 \<le> i \<and> i \<le> nat N \<longrightarrow> V1 (a + real i * dx) = V2 (a + real i * dx)"
  shows "discretized_schrodinger eigh (vectorized V1) a b N k mass hbar =
         discretized_schrodinger eigh (vectorized V2) a b N k mass hbar"
proof -
  have "discretize (vectorized V1) a b N mass = discretize (vectorized V2) a b N mass"
  proof (cases "1 \<le> N")
    case True
    have "V1 (mesh_point a b N (i + 1)) = V2 (mesh_point a b N (i + 1))" if "i < nat N" for i
    proof -
      have "1 \<le> i + 1 \<and> i + 1 \<le> nat N" using that by simp
      with assms(2) have "V1 (a + real (i + 1) * dx) = V2 (a + real (i + 1) * dx)" by blast
      then show ?thesis unfolding mesh_point_def mesh_dx_def assms(1) .
    qed
    then show ?thesis
      unfolding discretize_vectorized [OF True] by simp
  next
    case False
    then have "N < 1" by simp
    then show ?thesis by (simp add: discretize_fails)
  qed
  then show ?thesis by (simp add: discretized_schrodinger_def)
qed

theorem boundary_values_unused_witness:
  "hard_wall (finite_valued config_potential) (- 15) 15 (- 15) \<noteq> finite_valued config_potential (- 15)
   \<and> hard_wall (finite_valued config_potential) (- 15) 15 15 \<noteq> finite_valued config_potential 15
   \<and> discretized_schrodinger eigh_1x1
        (vectorized (hard_wall (finite_valued config_potential) (- 15) 15)) (- 15) 15 1 1 4 6.626
     = discretized_schrodinger eigh_1x1
        (vectorized (finite_valued config_potential)) (- 15) 15 1 1 4 6.626"
proof -
  have h: "\<forall>i. 1 \<le> i \<and> i \<le> nat 1 \<longrightarrow>
             hard_wall (finite_valued config_potential) (- 15) 15 (- 15 + real i * 15)
               = finite_valued config_potential (- 15 + real i * 15)"
    by (auto simp: hard_wall_def)
  have d: "(15 :: real) = (15 - (- 15)) / real_of_int (1 + 1)" by simp
  have ne: "hard_wall (finite_valued config_potential) (- 15) 15 (- 15)
               \<noteq> finite_valued config_potential (- 15)"
    "hard_wall (finite_valued config_potential) (- 15) 15 15 \<noteq> finite_valued config_potential 15"
    by (simp_all add: hard_wall_def finite_valued_def)
  show ?thesis
    using boundary_values_unused [OF d h, where eigh = eigh_1x1 and k = 1 and mass = 4
                                    and hbar = "6.626"] ne
    by simp
qed

lemma transpose_matrix:
  assumes "xs \<noteq> []" and "\<forall>row\<in>set xs. length row = n"
  shows "transpose xs = map (\<lambda>j. map (\<lambda>i. xs ! i ! j) [0..<length xs]) [0..<n]"
  using assms by (intro transpose_rectangle) simp_all

text \<open>
  Claim C3. On a valid input (\<open>a < b\<close>, \<open>1 \<le> k \<le> N\<close>, \<open>mass > 0\<close>, finite potential
  values), when the library call on the two diagonals returns \<open>k\<close> eigenvalues and an
  \<open>N\<close> by \<open>k\<close> matrix of eigenvectors, the function returns each energy as
  \<open>hbar / mass\<close> times the corresponding eigenvalue, and the states as the transposed
  matrix: \<open>k\<close> states of \<open>N\<close> amplitudes each, amplitude \<open>i\<close> of state \<open>j\<close> being
  entry \<open>(i, j)\<close> of the matrix.
\<close>

theorem energies_scaled_states_transposed:
  assumes "a < b" and "1 \<le> k" and "k \<le> N" and "0 < mass"
    and "discretize (vectorized (finite_valued V)) a b N mass = Inr (main_diag, off_diag)"
    and "eigh main_diag off_diag (0, k - 1) = Inr (eigvals, eigstates)"
    and "length eigvals = nat k" and "length eigstates = nat N"
    and "\<forall>row\<in>set eigstates. length row = nat k"
  shows "discretized_schrodinger eigh (vectorized (finite_valued V)) a b N k mass hbar =
           Inr (map (np_mul (Fin (hbar / mass))) eigvals, transpose eigstates)
       \<and> length (transpose eigstates) = nat k
       \<and> (\<forall>j<nat k. map (np_mul (Fin (hbar / mass))) eigvals ! j
                        = np_mul (Fin (hbar / mass)) (eigvals ! j)
                    \<and> length (transpose eigstates ! j) = nat N
                    \<and> (\<forall>i<nat N. transpose eigstates ! j ! i = eigstates ! i ! j))"
proof -
  have ne: "eigstates \<noteq> []" using assms(2,3,8) by auto
  have T: "transpose eigstates =
             map (\<lambda>j. map (\<lambda>i. eigstates ! i ! j) [0..<nat N]) [0..<nat k]"
    using transpose_matrix [OF ne assms(9)] by (simp add: assms(8))
  have "discretized_schrodinger eigh (vectorized (finite_valued V)) a b N k mass hbar =
           Inr (map (np_mul (Fin (hbar / mass))) eigvals, transpose eigstates)"
    unfolding discretized_schrodinger_unfold using assms(4,5,6) by simp
  moreover have "length (transpose eigstates) = nat k" unfolding T by simp
  moreover have "\<forall>j<nat k. map (np_mul (Fin (hbar / mass))) eigvals ! j
                        = np_mul (Fin (hbar / mass)) (eigvals ! j)
                    \<and> length (transpose eigstates ! j) = nat N
                    \<and> (\<forall>i<nat N. transpose eigstates ! j ! i = eigstates ! i ! j)"
    unfolding T using assms(7) by simp
  ultimately show ?thesis by blast
qed

theorem energies_scaled_states_transposed_witness:
  "(- 15 :: real) < 15 \<and> (1 :: int) \<le> 1 \<and> (1 :: int) \<le> 2 \<and> (0 :: real) < 4
   \<and> discretize (vectorized (finite_valued config_potential)) (- 15) 15 2 4 =
       Inr ([Fin 2450.01, Fin 2450.01], [Fin (- 0.005)])
   \<and> eigh_2x2_lowest [Fin 2450.01, Fin 2450.01] [Fin (- 0.005)] (0, 1 - 1) =
       Inr ([Fin 2450.005], [[Fin (1 / sqrt 2)], [Fin (1 / sqrt 2)]])
   \<and> discretized_schrodinger eigh_2x2_lowest (vectorized (finite_valued config_potential))
        (- 15) 15 2 1 4 6.626 =
       Inr ([Fin (6.626 / 4 * 2450.005)], [[Fin (1 / sqrt 2), Fin (1 / sqrt 2)]])"
proof -
  have d: "discretize (vectorized (finite_valued config_potential)) (- 15) 15 2 4 =
       Inr ([Fin 2450.01, Fin 2450.01], [Fin (- 0.005)])"
    by (simp add: discretize_vectorized np_power_neg2_def mesh_dx_def mesh_point_def
        finite_valued_def config_potential_def harmonic_oscillator_def upt_rec
        power2_eq_square)
  have e: "eigh_2x2_lowest [Fin 2450.01, Fin 2450.01] [Fin (- 0.005)] (0, 1 - 1) =
       Inr ([Fin 2450.005], [[Fin (1 / sqrt 2)], [Fin (1 / sqrt 2)]])"
    by (simp add: eigh_2x2_lowest_def)
  have t: "transpose [[Fin (1 / sqrt 2)], [Fin (1 / sqrt 2)]]
             = [[Fin (1 / sqrt 2), Fin (1 / sqrt 2)]]"
    by (simp add: transpose.simps)
  have "discretized_schrodinger eigh_2x2_lowest (vectorized (finite_valued config_potential))
        (- 15) 15 2 1 4 6.626 =
       Inr ([Fin (6.626 / 4 * 2450.005)], [[Fin (1 / sqrt 2), Fin (1 / sqrt 2)]])"
    using energies_scaled_states_transposed [where a = "- 15" and b = 15 and k = 1 and N = 2
            and mass = 4 and V = config_potential and eigh = eigh_2x2_lowest
            and main_diag = "[Fin 2450.01, Fin 2450.01]" and off_diag = "[Fin (- 0.005)]"
            and eigvals = "[Fin 2450.005]"
            and eigstates = "[[Fin (1 / sqrt 2)], [Fin (1 / sqrt 2)]]"
            and hbar = "6.626"] d e t
    by simp
  with d e show ?thesis by simp
qed




section \<open>Rounding to double precision\<close>

text \<open>\<open>binade\<close> is the binary exponent: the bounds determine it.\<close>

lemma powi_nat: "0 \<le> k \<Longrightarrow> (2::real) powi k = 2 ^ nat k"
  by (simp add: power_int_def)

lemma powi_neg_nat: "0 \<le> k \<Longrightarrow> (2::real) powi (- k) = 1 / 2 ^ nat k"
  by (simp add: power_int_minus_divide powi_nat)

lemma binade_bounds_ge1:
  assumes "(1::real) \<le> m"
  shows "2 powi (bitlen \<lfloor>m\<rfloor> - 1) \<le> m \<and> m < 2 powi (bitlen \<lfloor>m\<rfloor> - 1 + 1)"
proof -
  define t where "t = \<lfloor>m\<rfloor>"
  have t: "0 < t" using assms unfolding t_def by simp
  have b: "1 \<le> bitlen t" using t by (simp add: bitlen_alt_def)
  from bitlen_bounds [OF t]
  have lo: "2 ^ nat (bitlen t - 1) \<le> t" and hi: "t < 2 ^ nat (bitlen t)" by blast+
  have e1: "(2::real) powi (bitlen t - 1) = 2 ^ nat (bitlen t - 1)"
    using b by (intro powi_nat) linarith
  have e2: "(2::real) powi (bitlen t - 1 + 1) = 2 ^ nat (bitlen t)"
    using b powi_nat [of "bitlen t"] by simp
  have "real_of_int (2 ^ nat (bitlen t - 1)) \<le> real_of_int t"
    using lo by (simp only: of_int_le_iff)
  moreover have "real_of_int (2 ^ nat (bitlen t - 1)) = 2 ^ nat (bitlen t - 1)" by simp
  moreover have "real_of_int t \<le> m" unfolding t_def by linarith
  ultimately have L: "2 ^ nat (bitlen t - 1) \<le> m" by linarith
  have "t + 1 \<le> 2 ^ nat (bitlen t)" using hi by linarith
  then have "real_of_int (t + 1) \<le> real_of_int (2 ^ nat (bitlen t))"
    by (simp only: of_int_le_iff)
  moreover have "real_of_int (2 ^ nat (bitlen t)) = 2 ^ nat (bitlen t)" by simp
  moreover have "real_of_int (t + 1) = real_of_int t + 1" by simp
  moreover have "m < real_of_int t + 1" unfolding t_def by linarith
  ultimately have U: "m < 2 ^ nat (bitlen t)" by linarith
  show ?thesis
    unfolding t_def [symmetric] e1 e2 using L U by blast
qed

lemma binade_bounds_less1:
  assumes "(0::real) < m" and "m < 1"
  shows "2 powi (- bitlen (\<lceil>1 / m\<rceil> - 1)) \<le> m
       \<and> m < 2 powi (- bitlen (\<lceil>1 / m\<rceil> - 1) + 1)"
proof -
  define y where "y = 1 / m"
  define c where "c = \<lceil>y\<rceil>"
  define k where "k = bitlen (c - 1)"
  have y1: "1 < y" using assms by (simp add: y_def)
  have cy: "real_of_int c - 1 < y" "y \<le> real_of_int c" unfolding c_def by linarith+
  have c1: "0 < c - 1" using y1 cy(2) by linarith
  have k1: "1 \<le> k" using c1 by (simp add: k_def bitlen_alt_def)
  from bitlen_bounds [OF c1]
  have lo: "2 ^ nat (k - 1) \<le> c - 1" and hi: "c - 1 < 2 ^ nat k"
    unfolding k_def by blast+
  have "c \<le> 2 ^ nat k" using hi by linarith
  then have "real_of_int c \<le> real_of_int (2 ^ nat k)" by (simp only: of_int_le_iff)
  moreover have "real_of_int (2 ^ nat k) = 2 ^ nat k" by simp
  ultimately have yk: "y \<le> 2 ^ nat k" using cy by linarith
  have "real_of_int (2 ^ nat (k - 1)) \<le> real_of_int (c - 1)"
    using lo by (simp only: of_int_le_iff)
  moreover have "real_of_int (2 ^ nat (k - 1)) = 2 ^ nat (k - 1)" by simp
  moreover have "real_of_int (c - 1) = real_of_int c - 1" by simp
  ultimately have ky: "2 ^ nat (k - 1) < y" using cy by linarith
  have m: "m = 1 / y" using assms by (simp add: y_def)
  have p1: "(2::real) powi (- k) = 1 / 2 ^ nat k"
    using k1 by (intro powi_neg_nat) linarith
  have "(2::real) powi (- (k - 1)) = 1 / 2 ^ nat (k - 1)"
    using k1 by (intro powi_neg_nat) linarith
  then have p2: "(2::real) powi (- k + 1) = 1 / 2 ^ nat (k - 1)" by simp
  have y0: "0 < y" using y1 by linarith
  have L: "1 / 2 ^ nat k \<le> m"
    unfolding m using yk y0 by (intro divide_left_mono) simp_all
  have U: "m < 1 / 2 ^ nat (k - 1)"
    unfolding m using ky y0 by (intro divide_strict_left_mono) simp_all
  show ?thesis
    unfolding y_def [symmetric] c_def [symmetric] k_def [symmetric] p1 p2 using L U by blast
qed

lemma binade_bounds:
  assumes "(0::real) < m"
  shows "2 powi (binade m) \<le> m \<and> m < 2 powi (binade m + 1)"
proof (cases "1 \<le> m")
  case True
  then have "binade m = bitlen \<lfloor>m\<rfloor> - 1" by (simp add: binade_def)
  with binade_bounds_ge1 [OF True] show ?thesis by simp
next
  case False
  then have "binade m = - bitlen (\<lceil>1 / m\<rceil> - 1)" by (simp add: binade_def)
  with binade_bounds_less1 [OF assms] False show ?thesis by simp
qed

lemma binade_eqI:
  assumes "2 powi e \<le> m" and "m < 2 powi (e + 1)"
  shows "binade m = e"
proof -
  have "(0::real) < 2 powi e" by simp
  with assms(1) have m: "0 < m" by linarith
  from binade_bounds [OF m]
  have b: "2 powi (binade m) \<le> m" "m < 2 powi (binade m + 1)" by blast+
  have "e < binade m + 1"
  proof (rule ccontr)
    assume "\<not> e < binade m + 1"
    then have "binade m + 1 \<le> e" by simp
    then have "(2::real) powi (binade m + 1) \<le> 2 powi e"
      by (intro power_int_increasing) simp_all
    with assms(1) b(2) show False by linarith
  qed
  moreover have "binade m < e + 1"
  proof (rule ccontr)
    assume "\<not> binade m < e + 1"
    then have "e + 1 \<le> binade m" by simp
    then have "(2::real) powi (e + 1) \<le> 2 powi (binade m)"
      by (intro power_int_increasing) simp_all
    with assms(2) b(1) show False by linarith
  qed
  ultimately show ?thesis by simp
qed

text \<open>The rounded value of a number whose binade is known, and of a number below one.\<close>

lemma float64_finite:
  assumes "x \<noteq> 0"
    and "2 powi e \<le> \<bar>x\<bar>" and "\<bar>x\<bar> < 2 powi (e + 1)"
    and "max e (- 1022) = e'"
    and "round_half_even (\<bar>x\<bar> / 2 powi (e' - 52)) = n"
    and "of_int n * 2 powi (e' - 52) < (2::real) powi 1024"
  shows "float64 x = Fin (sgn x * (of_int n * 2 powi (e' - 52)))"
proof -
  have "binade \<bar>x\<bar> = e" using assms(2,3) by (rule binade_eqI)
  then show ?thesis
    unfolding float64_def Let_def using assms(1,4,5,6) by (simp only: if_False not_le [symmetric])
qed

lemma float64_below_one:
  assumes "1 / 2 ^ j \<le> x" and "x < 2 / 2 ^ j" and "j \<le> 1022"
    and "round_half_even (x * 2 ^ (j + 52)) = n"
    and "real_of_int n \<le> 2 ^ (j + 53)"
  shows "float64 x = Fin (of_int n / 2 ^ (j + 52))"
proof -
  have "(0::real) < 1 / 2 ^ j" by simp
  with assms(1) have x: "0 < x" by linarith
  have q: "(2::real) powi (- int j - 52) = 1 / 2 ^ (j + 52)"
    using powi_neg_nat [of "int j + 52"] by (simp add: nat_add_distrib)
  have lo: "(2::real) powi (- int j) = 1 / 2 ^ j"
    using powi_neg_nat [of "int j"] by simp
  have "(2::real) powi (- int j + 1) = 2 powi (- int j) * 2"
    by (rule power_int_add_1) simp
  then have hi: "(2::real) powi (- int j + 1) = 2 / 2 ^ j" unfolding lo by simp
  have "float64 x = Fin (sgn x * (of_int n * 2 powi (- int j - 52)))"
  proof (rule float64_finite [where e = "- int j"])
    show "x \<noteq> 0" using x by simp
    show "2 powi (- int j) \<le> \<bar>x\<bar>" unfolding lo using assms(1) x by simp
    show "\<bar>x\<bar> < 2 powi (- int j + 1)" unfolding hi using assms(2) x by simp
    show "max (- int j) (- 1022) = - int j" using assms(3) by simp
    show "round_half_even (\<bar>x\<bar> / 2 powi (- int j - 52)) = n"
      unfolding q using assms(4) x by simp
    have "real_of_int n * (1 / 2 ^ (j + 52)) \<le> 2 ^ (j + 53) * (1 / 2 ^ (j + 52))"
      using assms(5) by (intro mult_right_mono) simp_all
    also have "\<dots> = 2"
    proof -
      have "j + 53 = Suc (j + 52)" by simp
      then have "(2::real) ^ (j + 53) = 2 * 2 ^ (j + 52)" by (simp only: power_Suc)
      then show ?thesis by simp
    qed
    also have "\<dots> < 2 powi 1024"
      using power_int_strict_increasing [of 1 1024 "2::real"] by simp
    finally show "real_of_int n * 2 powi (- int j - 52) < 2 powi 1024" unfolding q .
  qed
  then show ?thesis unfolding q using x by simp
qed

text \<open>The roundings of the example below: \<open>3/10\<close> and \<open>1/10\<close> round down and up;
  both doubles are kept by a product with one; three times the double \<open>0.1\<close> lies half way
  between two doubles and goes to the even one, which is not the double \<open>0.3\<close>.\<close>

lemma float64_three_tenths: "float64 (3 / 10) = Fin (5404319552844595 / 2 ^ 54)"
  using float64_below_one [of 2 "3 / 10" 5404319552844595]
  by (simp add: round_half_even_def Let_def)

lemma float64_one_tenth: "float64 (1 / 10) = Fin (3602879701896397 / 2 ^ 55)"
  using float64_below_one [of 4 "1 / 10" 7205759403792794]
  by (simp add: round_half_even_def Let_def)

lemma float64_fixed_three_tenths:
  "float64 (5404319552844595 / 2 ^ 54 * 1) = Fin (5404319552844595 / 2 ^ 54)"
  using float64_below_one [of 2 "5404319552844595 / 2 ^ 54" 5404319552844595]
  by (simp add: round_half_even_def Let_def)

lemma float64_fixed_one_tenth:
  "float64 (3602879701896397 / 2 ^ 55 * 1) = Fin (3602879701896397 / 2 ^ 55)"
  using float64_below_one [of 4 "3602879701896397 / 2 ^ 55" 7205759403792794]
  by (simp add: round_half_even_def Let_def)

lemma float64_three_times_one_tenth:
  "float64 (3 * (3602879701896397 / 2 ^ 55)) = Fin (5404319552844596 / 2 ^ 54)"
  using float64_below_one [of 2 "3 * (3602879701896397 / 2 ^ 55)" 5404319552844596]
  by (simp add: round_half_even_def Let_def)

text \<open>A tie whose lower neighbour is even stays there: \<open>1/2 + 2\<^sup>-\<^sup>5\<^sup>4\<close> is the double
  \<open>1/2\<close>.\<close>

lemma float64_tie_to_even: "float64 (1 / 2 + 1 / 2 ^ 54) = Fin (1 / 2)"
  using float64_below_one [of 1 "1 / 2 + 1 / 2 ^ 54" 4503599627370496]
  by (simp add: round_half_even_def Let_def)

text \<open>Sign symmetry, overflow and underflow.\<close>

lemma round_half_even_of_int: "round_half_even (of_int n) = n"
  by (simp add: round_half_even_def)

lemma round_half_even_small: "0 \<le> y \<Longrightarrow> y < 1 / 2 \<Longrightarrow> round_half_even y = 0"
proof -
  assume y: "0 \<le> y" "y < 1 / 2"
  then have "\<lfloor>y\<rfloor> = 0" by linarith
  with y show ?thesis by (simp add: round_half_even_def)
qed

lemma float64_minus:
  "float64 (- x) =
     (case float64 x of Fin r \<Rightarrow> Fin (- r) | PInf \<Rightarrow> NInf | NInf \<Rightarrow> PInf | NaN \<Rightarrow> NaN)"
  by (cases "x = 0"; cases "0 < x") (simp_all add: float64_def Let_def sgn_if)

lemma float64_overflow: "float64 (2 powi 1024) = PInf"
proof -
  let ?x = "(2::real) powi 1024"
  have x: "0 < ?x" by simp
  have b: "binade \<bar>?x\<bar> = 1024"
  proof (rule binade_eqI)
    show "2 powi 1024 \<le> \<bar>?x\<bar>" by simp
    have "?x < 2 powi (1024 + 1)" by (intro power_int_strict_increasing) simp_all
    then show "\<bar>?x\<bar> < 2 powi (1024 + 1)" by simp
  qed
  have "(2::real) powi (1024 - 52) * 2 powi 52 = 2 powi (1024 - 52 + 52)"
    by (rule power_int_add [symmetric]) simp
  then have split: "(2::real) powi (1024 - 52) * 2 powi 52 = ?x" by simp
  have q0: "(0::real) < 2 powi (1024 - 52)" by simp
  have "?x / 2 powi (1024 - 52) = 2 powi 52"
    using split q0 by (simp add: field_simps)
  also have "\<dots> = real_of_int (2 ^ 52)" using powi_nat [of 52] by simp
  finally have "round_half_even (\<bar>?x\<bar> / 2 powi (1024 - 52)) = 2 ^ 52"
    using round_half_even_of_int [of "2 ^ 52"] by simp
  moreover have "real_of_int (2 ^ 52) * 2 powi (1024 - 52) = ?x"
    using split powi_nat [of 52] by (simp add: mult.commute)
  ultimately have "2 powi 1024
      \<le> real_of_int (round_half_even (\<bar>?x\<bar> / 2 powi (max (binade \<bar>?x\<bar>) (- 1022) - 52)))
          * 2 powi (max (binade \<bar>?x\<bar>) (- 1022) - 52)"
    unfolding b by simp
  then show ?thesis
    unfolding float64_def Let_def using x by (simp only: if_True if_False) simp
qed

lemma float64_underflow: "float64 (2 powi (- 1200)) = Fin 0"
proof -
  let ?x = "(2::real) powi (- 1200)"
  have x: "0 < ?x" by simp
  have b: "binade \<bar>?x\<bar> = - 1200"
  proof (rule binade_eqI)
    show "2 powi (- 1200) \<le> \<bar>?x\<bar>" by simp
    have "?x < 2 powi (- 1200 + 1)" by (intro power_int_strict_increasing) simp_all
    then show "\<bar>?x\<bar> < 2 powi (- 1200 + 1)" by simp
  qed
  have "(2::real) powi (- 1022 - 52) * 2 powi (- 126) = 2 powi (- 1022 - 52 + - 126)"
    by (rule power_int_add [symmetric]) simp
  then have split: "(2::real) powi (- 1022 - 52) * 2 powi (- 126) = ?x" by simp
  have q0: "(0::real) < 2 powi (- 1022 - 52)" by simp
  have d: "?x / 2 powi (- 1022 - 52) = 2 powi (- 126)"
    using split q0 by (simp add: field_simps)
  have "(2::real) powi (- 126) < 2 powi (- 1)" by (intro power_int_strict_increasing) simp_all
  then have "(2::real) powi (- 126) < 1 / 2" by simp
  moreover have "(0::real) \<le> 2 powi (- 126)" by simp
  ultimately have "round_half_even (2 powi (- 126)) = 0" by (intro round_half_even_small)
  then have r: "round_half_even (\<bar>?x\<bar> / 2 powi (max (binade \<bar>?x\<bar>) (- 1022) - 52)) = 0"
    unfolding b using d by simp
  have big: "\<not> (2::real) powi 1024 \<le> 0"
    by (simp add: not_le)
  show ?thesis
    unfolding float64_def Let_def r using x big by simp
qed

section \<open>The dependence on \<open>hbar\<close>\<close>

lemma discretize_unit_mesh:
  "discretize (vectorized (finite_valued config_potential)) (- 1) 1 1 10 = Inr ([Fin 1], [])"
  by (simp add: discretize_vectorized np_power_neg2_def mesh_dx_def mesh_point_def
        finite_valued_def config_potential_def harmonic_oscillator_def)

text \<open>
  Claim C8 says that the energies for \<open>hbar\<close> are \<open>hbar\<close> times the energies for
  \<open>hbar = 1.0\<close>, elementwise. On the mesh \<open>- 1, 0, 1\<close> with \<open>mass = 10\<close> the matrix is the
  single entry \<open>1\<close>; with \<open>hbar = 3\<close> the energy is the double \<open>3/10\<close>, with
  \<open>hbar = 1\<close> it is the double \<open>1/10\<close>, and three times the latter is another number,
  as a double product and as a real product.
\<close>

theorem hbar_rounding_counterexample:
  "discretized_schrodinger_float64 eigh_1x1 (vectorized (finite_valued config_potential))
       (- 1) 1 1 1 10 3 = Inr ([Fin (5404319552844595 / 2 ^ 54)], [[Fin 1]])
   \<and> discretized_schrodinger_float64 eigh_1x1 (vectorized (finite_valued config_potential))
       (- 1) 1 1 1 10 1 = Inr ([Fin (3602879701896397 / 2 ^ 55)], [[Fin 1]])
   \<and> np_mul_float64 (Fin 3) (Fin (3602879701896397 / 2 ^ 55))
       = Fin (5404319552844596 / 2 ^ 54)
   \<and> 3 * (3602879701896397 / 2 ^ 55) \<noteq> (5404319552844595 / 2 ^ 54 :: real)"
proof -
  have e: "eigh_1x1 [Fin 1] [] (0, 1 - 1) = Inr ([Fin 1], [[Fin 1]])"
    by (simp add: eigh_1x1_def)
  have m3: "np_mul_float64 (Fin (5404319552844595 / 2 ^ 54)) (Fin 1)
              = Fin (5404319552844595 / 2 ^ 54)"
    unfolding np_mul_float64_def prod.case npfloat.case
    by (rule float64_fixed_three_tenths)
  have m1: "np_mul_float64 (Fin (3602879701896397 / 2 ^ 55)) (Fin 1)
              = Fin (3602879701896397 / 2 ^ 55)"
    unfolding np_mul_float64_def prod.case npfloat.case
    by (rule float64_fixed_one_tenth)
  have d3: "py_truediv_float64 3 10 = Inr (Fin (5404319552844595 / 2 ^ 54))"
    unfolding py_truediv_float64_def float64_three_tenths by simp
  have d1: "py_truediv_float64 1 10 = Inr (Fin (3602879701896397 / 2 ^ 55))"
    unfolding py_truediv_float64_def float64_one_tenth by simp
  have t: "transpose [[Fin 1]] = [[Fin 1]]" by (simp add: transpose.simps)
  have c3: "discretized_schrodinger_float64 eigh_1x1
              (vectorized (finite_valued config_potential)) (- 1) 1 1 1 10 3
            = Inr ([Fin (5404319552844595 / 2 ^ 54)], [[Fin 1]])"
    unfolding discretized_schrodinger_float64_def discretize_unit_mesh sum.case prod.case
      e d3 list.map m3 t ..
  have c1: "discretized_schrodinger_float64 eigh_1x1
              (vectorized (finite_valued config_potential)) (- 1) 1 1 1 10 1
            = Inr ([Fin (3602879701896397 / 2 ^ 55)], [[Fin 1]])"
    unfolding discretized_schrodinger_float64_def discretize_unit_mesh sum.case prod.case
      e d1 list.map m1 t ..
  have p: "np_mul_float64 (Fin 3) (Fin (3602879701896397 / 2 ^ 55))
       = Fin (5404319552844596 / 2 ^ 54)"
    unfolding np_mul_float64_def prod.case npfloat.case
    by (rule float64_three_times_one_tenth)
  have n: "3 * (3602879701896397 / 2 ^ 55) \<noteq> (5404319552844595 / 2 ^ 54 :: real)"
    by simp
  from c3 c1 p n show ?thesis by blast
qed

text \<open>
  Claim C8, amended. For fixed solver, potential, bounds, \<open>N\<close>, \<open>k\<close> and mass, either
  the call fails for every \<open>hbar\<close> with the same error, or it succeeds for every
  \<open>hbar\<close> with the same states, and its energies are the same eigenvalues, whatever
  \<open>hbar\<close> is, each multiplied in double precision by the double quotient \<open>hbar / mass\<close>:
  \<open>hbar\<close> enters only the final scaling.
\<close>

theorem hbar_only_in_final_scaling:
  "(\<exists>err. \<forall>hbar. discretized_schrodinger_float64 eigh potentialFunction a b N k mass hbar
                  = Inl err)
   \<or> (\<exists>eigvals states. \<forall>hbar.
          discretized_schrodinger_float64 eigh potentialFunction a b N k mass hbar
            = Inr (map (np_mul_float64 (float64 (hbar / mass))) eigvals, states))"
proof (cases "discretize potentialFunction a b N mass")
  case (Inl err)
  then have "\<forall>hbar. discretized_schrodinger_float64 eigh potentialFunction a b N k mass hbar
                = Inl err"
    by (simp add: discretized_schrodinger_float64_def)
  then show ?thesis by blast
next
  case (Inr D)
  obtain main_diag off_diag where D: "D = (main_diag, off_diag)" by (cases D)
  show ?thesis
  proof (cases "eigh main_diag off_diag (0, k - 1)")
    case (Inl err)
    then have "\<forall>hbar. discretized_schrodinger_float64 eigh potentialFunction a b N k mass hbar
                  = Inl err"
      using Inr D by (simp add: discretized_schrodinger_float64_def)
    then show ?thesis by blast
  next
    case E: (Inr R)
    obtain eigvals eigstates where R: "R = (eigvals, eigstates)" by (cases R)
    show ?thesis
    proof (cases "mass = 0")
      case True
      then have "\<forall>hbar. discretized_schrodinger_float64 eigh potentialFunction a b N k mass hbar
                    = Inl ZeroDivisionError"
        using Inr D E R
        by (simp add: discretized_schrodinger_float64_def py_truediv_float64_def)
      then show ?thesis by blast
    next
      case False
      then have "\<forall>hbar. discretized_schrodinger_float64 eigh potentialFunction a b N k mass hbar
                    = Inr (map (np_mul_float64 (float64 (hbar / mass))) eigvals,
                           transpose eigstates)"
        using Inr D E R
        by (simp add: discretized_schrodinger_float64_def py_truediv_float64_def)
      then show ?thesis by blast
    qed
  qed
qed

theorem hbar_only_in_final_scaling_witness:
  "\<exists>eigvals states. \<forall>hbar.
      discretized_schrodinger_float64 eigh_1x1 (vectorized (finite_valued config_potential))
          (- 1) 1 1 1 10 hbar
        = Inr (map (np_mul_float64 (float64 (hbar / 10))) eigvals, states)"
proof -
  have e: "eigh_1x1 [Fin 1] [] (0, 1 - 1) = Inr ([Fin 1], [[Fin 1]])"
    by (simp add: eigh_1x1_def)
  have "discretized_schrodinger_float64 eigh_1x1
          (vectorized (finite_valued config_potential)) (- 1) 1 1 1 10 hbar \<noteq> Inl err"
    for hbar err
    unfolding discretized_schrodinger_float64_def discretize_unit_mesh sum.case prod.case e
    by (simp add: py_truediv_float64_def)
  then show ?thesis
    using hbar_only_in_final_scaling [of eigh_1x1 "vectorized (finite_valued config_potential)"
                                        "- 1" 1 1 1 10]
    by auto
qed

end
